theory Spec2Isabelle
  imports Main
begin

section \<open>The security-checker adapter of lint-action\<close>

text \<open>
  The source is \<^verbatim>\<open>src/linters/php-security-checker.js\<close>: a class with the static members
  \<^verbatim>\<open>name\<close>, \<^verbatim>\<open>verifySetup\<close>, \<^verbatim>\<open>lint\<close> and \<^verbatim>\<open>parseOutput\<close>.
  The functions it calls but does not define (\<^verbatim>\<open>commandExists\<close>, \<^verbatim>\<open>run\<close>, \<^verbatim>\<open>core.warning\<close>,
  \<^verbatim>\<open>JSON.parse\<close>) are arguments of the embedded functions, and every call made to one of
  them is recorded in a trace of events, in call order.
\<close>

subsection \<open>Values of the runtime\<close>

text \<open>
  What \<^verbatim>\<open>JSON.parse\<close> returns. A number is a value of the type parameter \<open>'n\<close>; an object
  carries its own properties in the order in which \<^verbatim>\<open>Object.entries\<close> enumerates them.
  A \<open>char\<close> stands for one character of a JavaScript string.
\<close>

datatype 'n json =
    JNull
  | JBool bool
  | JNumber 'n
  | JString string
  | JArray "'n json list"
  | JObject "(string \<times> 'n json) list"

text \<open>
  What reading a property can give: \<^verbatim>\<open>undefined\<close>, a decoded value, or the one function
  that a decoded value inherits under a name the source reads (\<^verbatim>\<open>String.prototype.link\<close>).
\<close>

datatype 'n js_value = Undefined | Json "'n json" | NativeLink

datatype type_error = NullToObject | NullProperty | NotIterable | NoPrimitive

text \<open>
  \<open>Error m\<close> is \<^verbatim>\<open>new Error(m)\<close>; \<open>TypeError\<close> is the error the runtime raises by itself;
  \<open>ExecError\<close> is what the process-invocation collaborator throws.
\<close>

datatype js_error = Error string | TypeError type_error | ExecError

record raw_output =
  status :: int
  stdout :: string
  stderr :: string

record run_options =
  dir :: string
  ignoreErrors :: "bool option"

datatype event = CommandExists string | Run string run_options | Warning string

record 'n entry =
  path :: string
  firstLine :: "'n js_value"
  lastLine :: "'n js_value"
  message :: string

record 'n LintResult =
  isSuccess :: "bool option"
  error :: "'n entry list"
  warning :: "'n entry list"
  notice :: "'n entry list"

subsection \<open>Helpers of the runtime\<close>

text \<open>A parameter with a default value: \<^verbatim>\<open>undefined\<close> (here \<open>None\<close>) takes the default.\<close>

definition dflt :: "'a \<Rightarrow> 'a option \<Rightarrow> 'a" where
  "dflt d x = (case x of None \<Rightarrow> d | Some v \<Rightarrow> v)"

text \<open>\<^verbatim>\<open>Array.prototype.join\<close> on strings.\<close>

fun join :: "string \<Rightarrow> string list \<Rightarrow> string" where
  "join sep [] = []"
| "join sep [x] = x"
| "join sep (x # y # ys) = x @ sep @ join sep (y # ys)"

text \<open>The decimal rendering of an array index.\<close>

definition digit :: "nat \<Rightarrow> char" where
  "digit d = char_of (48 + d)"

fun show_nat :: "nat \<Rightarrow> string" where
  "show_nat n = (if n < 10 then [digit n] else show_nat (n div 10) @ [digit (n mod 10)])"

declare show_nat.simps [simp del]

text \<open>The first error of a list of results, or all the values.\<close>

fun collect :: "('e + 'a) list \<Rightarrow> 'e + 'a list" where
  "collect [] = Inr []"
| "collect (r # rs) =
     (case r of
        Inl e \<Rightarrow> Inl e
      | Inr x \<Rightarrow> (case collect rs of Inl e \<Rightarrow> Inl e | Inr xs \<Rightarrow> Inr (x # xs)))"

text \<open>
  The string a template literal \<^verbatim>\<open>${v}\<close> inserts for a decoded value. An array is joined
  with commas, \<^verbatim>\<open>null\<close> elements giving the empty string; an object gives
  \<^verbatim>\<open>[object Object]\<close>, unless it has an own property \<^verbatim>\<open>toString\<close>: that property is
  a decoded value, hence not callable, and the conversion raises a TypeError.
\<close>

fun json_ToString :: "('n \<Rightarrow> string) \<Rightarrow> 'n json \<Rightarrow> js_error + string" where
  "json_ToString num JNull = Inr ''null''"
| "json_ToString num (JBool b) = Inr (if b then ''true'' else ''false'')"
| "json_ToString num (JNumber n) = Inr (num n)"
| "json_ToString num (JString s) = Inr s"
| "json_ToString num (JArray xs) =
     (case collect (map (\<lambda>x. if x = JNull then Inr [] else json_ToString num x) xs) of
        Inl e \<Rightarrow> Inl e
      | Inr ss \<Rightarrow> Inr (join '','' ss))"
| "json_ToString num (JObject kvs) =
     (if ''toString'' \<in> set (map fst kvs) then Inl (TypeError NoPrimitive)
      else Inr ''[object Object]'')"

fun ToString :: "('n \<Rightarrow> string) \<Rightarrow> 'n js_value \<Rightarrow> js_error + string" where
  "ToString num Undefined = Inr ''undefined''"
| "ToString num NativeLink = Inr ''function link() { [native code] }''"
| "ToString num (Json v) = json_ToString num v"

text \<open>
  Reading the property \<open>key\<close> of a decoded value, for the five names the source reads
  (\<^verbatim>\<open>advisories\<close>, \<^verbatim>\<open>version\<close>, \<^verbatim>\<open>cve\<close>, \<^verbatim>\<open>link\<close>, \<^verbatim>\<open>title\<close>): an object gives
  its own property, a string inherits \<^verbatim>\<open>link\<close>, \<^verbatim>\<open>null\<close> raises, and nothing else has
  a property of one of these names.
\<close>

fun Get :: "'n json \<Rightarrow> string \<Rightarrow> js_error + 'n js_value" where
  "Get JNull key = Inl (TypeError NullProperty)"
| "Get (JObject kvs) key = Inr (case map_of kvs key of None \<Rightarrow> Undefined | Some v \<Rightarrow> Json v)"
| "Get (JString s) key = Inr (if key = ''link'' then NativeLink else Undefined)"
| "Get v key = Inr Undefined"

text \<open>The values a \<^verbatim>\<open>for ... of\<close> loop runs over: the elements of an array, the characters
  of a string; nothing else that can be read here is iterable.\<close>

fun iterate :: "'n js_value \<Rightarrow> js_error + 'n json list" where
  "iterate (Json (JArray xs)) = Inr xs"
| "iterate (Json (JString s)) = Inr (map (\<lambda>c. JString [c]) s)"
| "iterate v = Inl (TypeError NotIterable)"

text \<open>\<^verbatim>\<open>Object.entries\<close>: the own enumerable properties, those of an array or a string under
  their indices; a number or a boolean has none, \<^verbatim>\<open>null\<close> raises.\<close>

fun Object_entries :: "'n json \<Rightarrow> js_error + (string \<times> 'n json) list" where
  "Object_entries JNull = Inl (TypeError NullToObject)"
| "Object_entries (JBool b) = Inr []"
| "Object_entries (JNumber n) = Inr []"
| "Object_entries (JString s) = Inr (zip (map show_nat [0..<length s]) (map (\<lambda>c. JString [c]) s))"
| "Object_entries (JArray xs) = Inr (zip (map show_nat [0..<length xs]) xs)"
| "Object_entries (JObject kvs) = Inr kvs"

subsection \<open>The adapter\<close>

definition name :: string where
  "name = ''security-checker''"

text \<open>
  \<^verbatim>\<open>verifySetup(dir, prefix = "")\<close>: the result and the calls made. An error thrown by
  \<^verbatim>\<open>run\<close> is caught and replaced.
\<close>

definition verifySetup ::
  "(string \<Rightarrow> bool) \<Rightarrow> (string \<Rightarrow> run_options \<Rightarrow> js_error + raw_output) \<Rightarrow>
   string \<Rightarrow> string option \<Rightarrow> (js_error + unit) \<times> event list" where
  "verifySetup commandExists run d prefix =
     (if \<not> commandExists ''php''
      then (Inl (Error ''PHP is not installed''), [CommandExists ''php''])
      else
        let cmd = dflt [] prefix @ '' security-checker --version'';
            opts = \<lparr>dir = d, ignoreErrors = None\<rparr>
        in case run cmd opts of
             Inl err \<Rightarrow>
               (Inl (Error (name @ '' is not installed'')), [CommandExists ''php'', Run cmd opts])
           | Inr out \<Rightarrow> (Inr (), [CommandExists ''php'', Run cmd opts]))"

text \<open>\<^verbatim>\<open>lint(dir, extensions, args = "", fix = false, prefix = "")\<close>.\<close>

definition lint ::
  "(string \<Rightarrow> run_options \<Rightarrow> js_error + raw_output) \<Rightarrow>
   string \<Rightarrow> string list \<Rightarrow> string option \<Rightarrow> bool option \<Rightarrow> string option \<Rightarrow>
   (js_error + raw_output) \<times> event list" where
  "lint run d extensions args fix prefix =
     (let extensionsArg = join '','' extensions;
          warned =
            (if dflt False fix
             then [Warning (name @ '' does not support auto-fixing '' @ extensionsArg)]
             else []);
          cmd = dflt [] prefix @ '' security-checker security:check composer.lock ''
                  @ dflt [] args @ '' --no-dev --format=json'';
          opts = \<lparr>dir = d, ignoreErrors = Some True\<rparr>
      in (run cmd opts, warned @ [Run cmd opts]))"

text \<open>
  Modelled from the spec: \<^verbatim>\<open>initLintResult\<close> of \<^verbatim>\<open>../utils/lint-result\<close>, which is not
  among the sources. The spec: it "produces an empty NormalizedResult with the three empty
  severity buckets and isSuccess undefined until set".
\<close>

definition initLintResult :: "'n LintResult" where
  "initLintResult = \<lparr>isSuccess = None, error = [], warning = [], notice = []\<rparr>"

text \<open>The body of the inner loop: the entry pushed for one advisory.\<close>

definition make_entry ::
  "('n \<Rightarrow> string) \<Rightarrow> string \<Rightarrow> 'n json \<Rightarrow> 'n json \<Rightarrow> js_error + 'n entry" where
  "make_entry num dependency advisories advisor =
     (case Get advisor ''cve'' of Inl e \<Rightarrow> Inl e | Inr cve \<Rightarrow>
      case Get advisor ''link'' of Inl e \<Rightarrow> Inl e | Inr link \<Rightarrow>
      case Get advisor ''title'' of Inl e \<Rightarrow> Inl e | Inr title \<Rightarrow>
      case Get advisories ''version'' of Inl e \<Rightarrow> Inl e | Inr version \<Rightarrow>
      case ToString num version of Inl e \<Rightarrow> Inl e | Inr version_text \<Rightarrow>
      case ToString num title of Inl e \<Rightarrow> Inl e | Inr title_text \<Rightarrow>
      case ToString num link of Inl e \<Rightarrow> Inl e | Inr link_text \<Rightarrow>
        Inr \<lparr>path = dependency @ '' version: '' @ version_text @ '' '',
             firstLine = cve,
             lastLine = cve,
             message = title_text @ '' ('' @ link_text @ '')''\<rparr>)"

text \<open>The inner loop, \<^verbatim>\<open>for (const advisor of advisories.advisories)\<close>.\<close>

fun advisor_loop ::
  "('n \<Rightarrow> string) \<Rightarrow> string \<Rightarrow> 'n json \<Rightarrow> 'n json list \<Rightarrow> 'n LintResult \<Rightarrow>
   js_error + 'n LintResult" where
  "advisor_loop num dependency advisories [] lintResult = Inr lintResult"
| "advisor_loop num dependency advisories (advisor # rest) lintResult =
     (case make_entry num dependency advisories advisor of
        Inl e \<Rightarrow> Inl e
      | Inr entry \<Rightarrow>
          advisor_loop num dependency advisories rest
            (lintResult\<lparr>error := error lintResult @ [entry]\<rparr>))"

text \<open>The outer loop, \<^verbatim>\<open>for (const [dependency, advisories] of Object.entries(outputJson))\<close>.\<close>

fun entries_loop ::
  "('n \<Rightarrow> string) \<Rightarrow> (string \<times> 'n json) list \<Rightarrow> 'n LintResult \<Rightarrow> js_error + 'n LintResult" where
  "entries_loop num [] lintResult = Inr lintResult"
| "entries_loop num ((dependency, advisories) # rest) lintResult =
     (case Get advisories ''advisories'' of Inl e \<Rightarrow> Inl e | Inr list \<Rightarrow>
      case iterate list of Inl e \<Rightarrow> Inl e | Inr advisors \<Rightarrow>
      case advisor_loop num dependency advisories advisors lintResult of
        Inl e \<Rightarrow> Inl e
      | Inr lintResult' \<Rightarrow> entries_loop num rest lintResult')"

text \<open>
  \<^verbatim>\<open>parseOutput(dir, output)\<close>. \<open>JSON_parse\<close> gives the decoded value, or the message of
  the error \<^verbatim>\<open>JSON.parse\<close> throws; \<open>num\<close> is the runtime's rendering of a number.
\<close>

definition parseOutput ::
  "(string \<Rightarrow> string + 'n json) \<Rightarrow> ('n \<Rightarrow> string) \<Rightarrow> string \<Rightarrow> raw_output \<Rightarrow>
   js_error + 'n LintResult" where
  \<open>parseOutput JSON_parse num d output =
     (let lintResult = initLintResult\<lparr>isSuccess := Some (status output = 0)\<rparr>
      in case JSON_parse (stdout output) of
           Inl err_message \<Rightarrow>
             Inl (Error (''Error parsing '' @ name @ '' JSON output: '' @ err_message
                         @ ''. Output: "'' @ stdout output @ ''"''))
         | Inr outputJson \<Rightarrow>
             (case Object_entries outputJson of
                Inl e \<Rightarrow> Inl e
              | Inr entries \<Rightarrow> entries_loop num entries lintResult))\<close>

subsection \<open>The same function on a store of objects\<close>

text \<open>
  \<^verbatim>\<open>parseOutput\<close> once more, with the objects it is given and the objects it creates held in
  a store, so that every read of a property and every assignment is a step on the store. A
  reference is an index into the store. The store holds the objects of the shape of the
  command output, the result objects, and the arrays: a result object holds its flag and the
  references of its three arrays. Entries and decoded values are never assigned to after
  their creation and stay plain values. A reference that denotes no object behaves as
  \<^verbatim>\<open>undefined\<close>: reading or writing a property of it raises a TypeError.
\<close>

record result_object =
  isSuccess_field :: "bool option"
  error_ref :: nat
  warning_ref :: nat
  notice_ref :: nat

record 'n store =
  outputs :: "raw_output list"
  results :: "result_object list"
  arrays :: "'n entry list list"

text \<open>
  Modelled from the spec: \<^verbatim>\<open>initLintResult\<close> of \<^verbatim>\<open>../utils/lint-result\<close>, which is not
  among the sources, as a step on the store. The spec: it "produces an empty
  NormalizedResult with the three empty severity buckets and isSuccess undefined until
  set", and a NormalizedResult is "created fresh per invocation". The result object and its
  three arrays are new objects of the store; the reference of the result object is returned.
\<close>

definition initLintResult_st :: "'n store \<Rightarrow> nat \<times> 'n store" where
  "initLintResult_st s =
     (let n = length (arrays s)
      in (length (results s),
          s\<lparr>results := results s
                 @ [\<lparr>isSuccess_field = None, error_ref = n, warning_ref = n + 1,
                     notice_ref = n + 2\<rparr>],
            arrays := arrays s @ [[], [], []]\<rparr>))"

text \<open>Reading a property of the output object, \<^verbatim>\<open>output.status\<close> or \<^verbatim>\<open>output.stdout\<close>.\<close>

definition read_output :: "'n store \<Rightarrow> nat \<Rightarrow> (raw_output \<Rightarrow> 'a) \<Rightarrow> js_error + 'a" where
  "read_output s output field =
     (if output < length (outputs s) then Inr (field (outputs s ! output))
      else Inl (TypeError NullProperty))"

text \<open>The assignment \<^verbatim>\<open>lintResult.isSuccess = b\<close>.\<close>

definition set_isSuccess :: "nat \<Rightarrow> bool \<Rightarrow> 'n store \<Rightarrow> js_error + 'n store" where
  "set_isSuccess lintResult b s =
     (if lintResult < length (results s)
      then Inr (s\<lparr>results :=
                  (results s)[lintResult := (results s ! lintResult)\<lparr>isSuccess_field := Some b\<rparr>]\<rparr>)
      else Inl (TypeError NullProperty))"

text \<open>The call \<^verbatim>\<open>lintResult.error.push(entry)\<close>.\<close>

definition push_error :: "nat \<Rightarrow> 'n entry \<Rightarrow> 'n store \<Rightarrow> js_error + 'n store" where
  "push_error lintResult entry s =
     (if lintResult < length (results s)
      then let e = error_ref (results s ! lintResult)
           in if e < length (arrays s)
              then Inr (s\<lparr>arrays := (arrays s)[e := arrays s ! e @ [entry]]\<rparr>)
              else Inl (TypeError NullProperty)
      else Inl (TypeError NullProperty))"

text \<open>The loops: an error or none, and the store as the loop leaves it in either case.\<close>

fun advisor_loop_st ::
  "('n \<Rightarrow> string) \<Rightarrow> string \<Rightarrow> 'n json \<Rightarrow> 'n json list \<Rightarrow> nat \<Rightarrow> 'n store \<Rightarrow>
   js_error option \<times> 'n store" where
  "advisor_loop_st num dependency advisories [] lintResult s = (None, s)"
| "advisor_loop_st num dependency advisories (advisor # rest) lintResult s =
     (case make_entry num dependency advisories advisor of
        Inl e \<Rightarrow> (Some e, s)
      | Inr entry \<Rightarrow>
          (case push_error lintResult entry s of
             Inl e \<Rightarrow> (Some e, s)
           | Inr s' \<Rightarrow> advisor_loop_st num dependency advisories rest lintResult s'))"

fun entries_loop_st ::
  "('n \<Rightarrow> string) \<Rightarrow> (string \<times> 'n json) list \<Rightarrow> nat \<Rightarrow> 'n store \<Rightarrow>
   js_error option \<times> 'n store" where
  "entries_loop_st num [] lintResult s = (None, s)"
| "entries_loop_st num ((dependency, advisories) # rest) lintResult s =
     (case Get advisories ''advisories'' of Inl e \<Rightarrow> (Some e, s) | Inr list \<Rightarrow>
      case iterate list of Inl e \<Rightarrow> (Some e, s) | Inr advisors \<Rightarrow>
      case advisor_loop_st num dependency advisories advisors lintResult s of
        (Some e, s') \<Rightarrow> (Some e, s')
      | (None, s') \<Rightarrow> entries_loop_st num rest lintResult s')"

text \<open>
  \<^verbatim>\<open>parseOutput(dir, output)\<close>, \<open>output\<close> being the reference of the output object: the
  error thrown or the reference of the result object, and the store after the call.
\<close>

definition parseOutput_st ::
  "(string \<Rightarrow> string + 'n json) \<Rightarrow> ('n \<Rightarrow> string) \<Rightarrow> string \<Rightarrow> nat \<Rightarrow> 'n store \<Rightarrow>
   (js_error + nat) \<times> 'n store" where
  \<open>parseOutput_st JSON_parse num d output s =
     (case initLintResult_st s of (lintResult, s1) \<Rightarrow>
      case read_output s1 output status of Inl e \<Rightarrow> (Inl e, s1) | Inr st \<Rightarrow>
      case set_isSuccess lintResult (st = 0) s1 of Inl e \<Rightarrow> (Inl e, s1) | Inr s2 \<Rightarrow>
      case read_output s2 output stdout of Inl e \<Rightarrow> (Inl e, s2) | Inr payload \<Rightarrow>
      case JSON_parse payload of
        Inl err_message \<Rightarrow>
          (Inl (Error (''Error parsing '' @ name @ '' JSON output: '' @ err_message
                       @ ''. Output: "'' @ payload @ ''"'')), s2)
      | Inr outputJson \<Rightarrow>
          (case Object_entries outputJson of
             Inl e \<Rightarrow> (Inl e, s2)
           | Inr entries \<Rightarrow>
               (case entries_loop_st num entries lintResult s2 of
                  (Some e, s3) \<Rightarrow> (Inl e, s3)
                | (None, s3) \<Rightarrow> (Inr lintResult, s3))))\<close>

text \<open>What the caller sees of a call: the error, or the result object read from the store.\<close>

definition result_at :: "'n store \<Rightarrow> nat \<Rightarrow> 'n LintResult" where
  "result_at s r =
     \<lparr>isSuccess = isSuccess_field (results s ! r),
      error = arrays s ! error_ref (results s ! r),
      warning = arrays s ! warning_ref (results s ! r),
      notice = arrays s ! notice_ref (results s ! r)\<rparr>"

definition outcome :: "(js_error + nat) \<times> 'n store \<Rightarrow> js_error + 'n LintResult" where
  "outcome call = (case fst call of Inl e \<Rightarrow> Inl e | Inr r \<Rightarrow> Inr (result_at (snd call) r))"

text \<open>A reference of a result object whose arrays are in the store, the error bucket being
  an array of its own.\<close>

definition result_ref :: "'n store \<Rightarrow> nat \<Rightarrow> bool" where
  "result_ref s r =
     (r < length (results s)
      \<and> error_ref (results s ! r) < length (arrays s)
      \<and> warning_ref (results s ! r) < length (arrays s)
      \<and> notice_ref (results s ! r) < length (arrays s)
      \<and> error_ref (results s ! r) \<noteq> warning_ref (results s ! r)
      \<and> error_ref (results s ! r) \<noteq> notice_ref (results s ! r))"

text \<open>Every object of \<open>s\<close> is an object of \<open>s'\<close> and has kept all its properties.\<close>

definition unchanged :: "'n store \<Rightarrow> 'n store \<Rightarrow> bool" where
  "unchanged s s' =
     (outputs s' = outputs s
      \<and> take (length (results s)) (results s') = results s
      \<and> take (length (arrays s)) (arrays s') = arrays s)"

subsection \<open>The process-invocation collaborator\<close>

text \<open>
  Modelled from the spec: \<^verbatim>\<open>run\<close> of \<^verbatim>\<open>../utils/action\<close>, which is not among the
  sources. The spec: "execute(commandString, {directory, suppressErrorRaise}) -> RawOutput,
  raising a generic execution-failure unless suppressErrorRaise is set, in which case any
  exit status is returned as data". \<open>exec\<close> is the subprocess: what the command yields
  when it is run in the directory.
\<close>

definition run_spec ::
  "(string \<Rightarrow> string \<Rightarrow> raw_output) \<Rightarrow> string \<Rightarrow> run_options \<Rightarrow> js_error + raw_output" where
  "run_spec exec cmd opts =
     (let out = exec cmd (dir opts)
      in if ignoreErrors opts = Some True then Inr out
         else if status out = 0 then Inr out
         else Inl ExecError)"

subsection \<open>The wire format of the tool, as the spec words it\<close>

text \<open>
  "A JSON object keyed by dependency name, each value containing a \<^verbatim>\<open>version\<close> string
  field and an \<^verbatim>\<open>advisories\<close> array of objects each containing at least \<^verbatim>\<open>cve\<close>,
  \<^verbatim>\<open>link\<close>, \<^verbatim>\<open>title\<close> string fields."
\<close>

fun string_field :: "'n json \<Rightarrow> string \<Rightarrow> string option" where
  "string_field (JObject kvs) key =
     (case map_of kvs key of Some (JString s) \<Rightarrow> Some s | _ \<Rightarrow> None)"
| "string_field v key = None"

fun array_field :: "'n json \<Rightarrow> string \<Rightarrow> 'n json list option" where
  "array_field (JObject kvs) key =
     (case map_of kvs key of Some (JArray xs) \<Rightarrow> Some xs | _ \<Rightarrow> None)"
| "array_field v key = None"

definition wire_advisory :: "'n json \<Rightarrow> bool" where
  "wire_advisory a =
     (string_field a ''cve'' \<noteq> None \<and> string_field a ''link'' \<noteq> None
      \<and> string_field a ''title'' \<noteq> None)"

definition wire_dependency :: "'n json \<Rightarrow> bool" where
  "wire_dependency v =
     (string_field v ''version'' \<noteq> None \<and>
      (case array_field v ''advisories'' of None \<Rightarrow> False | Some xs \<Rightarrow> list_all wire_advisory xs))"

definition wire_format :: "'n json \<Rightarrow> bool" where
  "wire_format v =
     (case v of JObject deps \<Rightarrow> list_all (\<lambda>kv. wire_dependency (snd kv)) deps | _ \<Rightarrow> False)"

definition text_of :: "'n json \<Rightarrow> string \<Rightarrow> string" where
  "text_of v key = (case string_field v key of None \<Rightarrow> [] | Some s \<Rightarrow> s)"

definition advisories_of :: "'n json \<Rightarrow> 'n json list" where
  "advisories_of v = (case array_field v ''advisories'' of None \<Rightarrow> [] | Some xs \<Rightarrow> xs)"

text \<open>The finding the spec gives for one advisory of one dependency.\<close>

definition finding :: "string \<Rightarrow> 'n json \<Rightarrow> 'n json \<Rightarrow> 'n entry" where
  "finding dependency v a =
     \<lparr>path = dependency @ '' version: '' @ text_of v ''version'' @ '' '',
      firstLine = Json (JString (text_of a ''cve'')),
      lastLine = Json (JString (text_of a ''cve'')),
      message = text_of a ''title'' @ '' ('' @ text_of a ''link'' @ '')''\<rparr>"

text \<open>All findings of a decoded object: dependency-major, advisory-minor, in decode order.\<close>

definition findings :: "(string \<times> 'n json) list \<Rightarrow> 'n entry list" where
  "findings deps =
     concat (map (\<lambda>kv. map (finding (fst kv) (snd kv)) (advisories_of (snd kv))) deps)"

text \<open>A value that is not an object holding an array or a string under \<^verbatim>\<open>advisories\<close>.\<close>

fun lacks_advisories :: "'n json \<Rightarrow> bool" where
  "lacks_advisories (JObject kvs) =
     (case map_of kvs ''advisories'' of
        Some (JArray xs) \<Rightarrow> False
      | Some (JString s) \<Rightarrow> False
      | _ \<Rightarrow> True)"
| "lacks_advisories v = True"

text \<open>JavaScript's \<^verbatim>\<open>String.prototype.includes\<close>: \<open>xs\<close> occurs in \<open>ys\<close>.\<close>

fun starts_with :: "string \<Rightarrow> string \<Rightarrow> bool" where
  "starts_with ys [] = True"
| "starts_with [] (x # xs) = False"
| "starts_with (y # ys) (x # xs) = (x = y \<and> starts_with ys xs)"

fun str_includes :: "string \<Rightarrow> string \<Rightarrow> bool" where
  "str_includes [] xs = (xs = [])"
| "str_includes (y # ys) xs = (starts_with (y # ys) xs \<or> str_includes ys xs)"

text \<open>The commands a trace passes to \<^verbatim>\<open>run\<close>, and the warnings it emits.\<close>

fun commands :: "event list \<Rightarrow> (string \<times> run_options) list" where
  "commands [] = []"
| "commands (Run cmd opts # es) = (cmd, opts) # commands es"
| "commands (e # es) = commands es"

fun warnings :: "event list \<Rightarrow> string list" where
  "warnings [] = []"
| "warnings (Warning m # es) = m # warnings es"
| "warnings (e # es) = warnings es"

subsection \<open>Sample inputs\<close>

text \<open>
  Payloads, and what \<^verbatim>\<open>JSON.parse\<close> of Node gives for each of them. \<open>sample_JSON_parse\<close>
  is that table; a string outside the table is treated as undecodable, and only the strings
  of the table are used below. Numbers are natural numbers here, rendered in decimal.
\<close>

definition guzzle_stdout :: string where
  \<open>guzzle_stdout = ''{"guzzlehttp/guzzle":{"version":"6.2.0","advisories":[{"title":"Proxy header vuln","link":"https://x","cve":"CVE-2016-5385"}]}}''\<close>

definition guzzle_deps :: "(string \<times> nat json) list" where
  "guzzle_deps =
     [(''guzzlehttp/guzzle'', JObject
       [(''version'', JString ''6.2.0''),
        (''advisories'', JArray [JObject
           [(''title'', JString ''Proxy header vuln''),
            (''link'', JString ''https://x''),
            (''cve'', JString ''CVE-2016-5385'')]])])]"

definition three_stdout :: string where
  \<open>three_stdout = ''{"a/b":{"version":"1.0","advisories":[{"cve":"CVE-1","link":"l1","title":"t1"},{"cve":"CVE-2","link":"l2","title":"t2"}]},"c/d":{"version":"2.0","advisories":[{"cve":"CVE-3","link":"l3","title":"t3"}]}}''\<close>

definition three_deps :: "(string \<times> nat json) list" where
  "three_deps =
     [(''a/b'', JObject
        [(''version'', JString ''1.0''),
         (''advisories'', JArray
            [JObject [(''cve'', JString ''CVE-1''), (''link'', JString ''l1''),
                      (''title'', JString ''t1'')],
             JObject [(''cve'', JString ''CVE-2''), (''link'', JString ''l2''),
                      (''title'', JString ''t2'')]])]),
      (''c/d'', JObject
        [(''version'', JString ''2.0''),
         (''advisories'', JArray
            [JObject [(''cve'', JString ''CVE-3''), (''link'', JString ''l3''),
                      (''title'', JString ''t3'')]])])]"

definition no_advisories_stdout :: string where
  \<open>no_advisories_stdout = ''{"a/b":{"version":"1.0"}}''\<close>

definition no_advisories_deps :: "(string \<times> nat json) list" where
  "no_advisories_deps = [(''a/b'', JObject [(''version'', JString ''1.0'')])]"

definition number_advisory_stdout :: string where
  \<open>number_advisory_stdout = ''{"a/b":{"advisories":[5]}}''\<close>

definition number_advisory_deps :: "(string \<times> nat json) list" where
  "number_advisory_deps = [(''a/b'', JObject [(''advisories'', JArray [JNumber 5])])]"

definition sample_JSON_parse :: "string \<Rightarrow> string + nat json" where
  "sample_JSON_parse s =
     (if s = ''5'' then Inr (JNumber 5)
      else if s = ''null'' then Inr JNull
      else if s = ''{}'' then Inr (JObject [])
      else if s = guzzle_stdout then Inr (JObject guzzle_deps)
      else if s = three_stdout then Inr (JObject three_deps)
      else if s = no_advisories_stdout then Inr (JObject no_advisories_deps)
      else if s = number_advisory_stdout then Inr (JObject number_advisory_deps)
      else Inl ''Unexpected token o in JSON at position 1'')"

text \<open>A store with two output objects, which differ in the standard error only, and an
  earlier result with one finding in its error bucket.\<close>

definition sample_store :: "nat store" where
  "sample_store =
     \<lparr>outputs =
        [\<lparr>status = 1, stdout = guzzle_stdout, stderr = []\<rparr>,
         \<lparr>status = 1, stdout = guzzle_stdout, stderr = ''PHP Deprecated''\<rparr>],
      results = [\<lparr>isSuccess_field = Some False, error_ref = 0, warning_ref = 1, notice_ref = 2\<rparr>],
      arrays =
        [[\<lparr>path = ''x/y version: 1 '', firstLine = Json (JString ''CVE-0''),
           lastLine = Json (JString ''CVE-0''), message = ''t (l)''\<rparr>], [], []]\<rparr>"

text \<open>Collaborators for the samples: a machine with or without PHP, a subprocess that
  exits with status 1, and one that exits with status 0.\<close>

definition php_present :: "string \<Rightarrow> bool" where
  "php_present binary = (binary = ''php'')"

definition php_absent :: "string \<Rightarrow> bool" where
  "php_absent binary = False"

definition exec_failing :: "string \<Rightarrow> string \<Rightarrow> raw_output" where
  "exec_failing cmd d = \<lparr>status = 1, stdout = ''{}'', stderr = ''sh: not found''\<rparr>"

definition exec_passing :: "string \<Rightarrow> string \<Rightarrow> raw_output" where
  "exec_passing cmd d = \<lparr>status = 0, stdout = ''{}'', stderr = []\<rparr>"

section \<open>Properties\<close>

subsection \<open>What the loops leave alone\<close>

lemma advisor_loop_frame:
  "advisor_loop num dependency advisories advisors r = Inr r' \<Longrightarrow>
   isSuccess r' = isSuccess r \<and> warning r' = warning r \<and> notice r' = notice r"
  by (induction advisors arbitrary: r) (auto split: sum.splits)

lemma entries_loop_frame:
  "entries_loop num es r = Inr r' \<Longrightarrow>
   isSuccess r' = isSuccess r \<and> warning r' = warning r \<and> notice r' = notice r"
proof (induction es arbitrary: r)
  case Nil
  then show ?case by simp
next
  case (Cons kv es)
  obtain k v where kv: "kv = (k, v)" by (cases kv)
  from Cons.prems kv obtain advisors r1 where
    "advisor_loop num k v advisors r = Inr r1" and "entries_loop num es r1 = Inr r'"
    by (auto split: sum.splits)
  then show ?case
    using Cons.IH [of r1] advisor_loop_frame [of num k v advisors r r1] by simp
qed

subsection \<open>The loops on the wire format\<close>

lemma Get_string_field:
  "string_field v key = Some s \<Longrightarrow> Get v key = Inr (Json (JString s))"
  by (cases v) (auto split: option.splits json.splits)

lemma Get_array_field:
  "array_field v key = Some xs \<Longrightarrow> Get v key = Inr (Json (JArray xs))"
  by (cases v) (auto split: option.splits json.splits)

lemma make_entry_wire:
  assumes "string_field v ''version'' = Some ver"
    and "string_field a ''cve'' = Some c"
    and "string_field a ''link'' = Some l"
    and "string_field a ''title'' = Some t"
  shows "make_entry num dependency v a =
     Inr \<lparr>path = dependency @ '' version: '' @ ver @ '' '',
          firstLine = Json (JString c), lastLine = Json (JString c),
          message = t @ '' ('' @ l @ '')''\<rparr>"
  using assms by (simp add: make_entry_def Get_string_field)

lemma make_entry_finding:
  assumes "string_field v ''version'' \<noteq> None" and "wire_advisory a"
  shows "make_entry num dependency v a = Inr (finding dependency v a)"
proof -
  from assms obtain ver c l t where f:
    "string_field v ''version'' = Some ver" "string_field a ''cve'' = Some c"
    "string_field a ''link'' = Some l" "string_field a ''title'' = Some t"
    by (auto simp: wire_advisory_def)
  then show ?thesis
    by (simp add: make_entry_wire [OF f] finding_def text_of_def)
qed

lemma advisor_loop_wire:
  assumes "string_field v ''version'' \<noteq> None"
  shows "list_all wire_advisory advisors \<Longrightarrow>
     advisor_loop num dependency v advisors r =
       Inr (r\<lparr>error := error r @ map (finding dependency v) advisors\<rparr>)"
proof (induction advisors arbitrary: r)
  case Nil
  then show ?case by simp
next
  case (Cons a advisors)
  then show ?case
    by (simp add: make_entry_finding [OF assms])
qed

lemma entries_loop_wire:
  "list_all (\<lambda>kv. wire_dependency (snd kv)) deps \<Longrightarrow>
   entries_loop num deps r = Inr (r\<lparr>error := error r @ findings deps\<rparr>)"
proof (induction deps arbitrary: r)
  case Nil
  then show ?case by (simp add: findings_def)
next
  case (Cons kv deps)
  obtain k v where kv: "kv = (k, v)" by (cases kv)
  from Cons.prems kv have ver: "string_field v ''version'' \<noteq> None"
    by (simp add: wire_dependency_def)
  from Cons.prems kv obtain xs where xs: "array_field v ''advisories'' = Some xs"
    and wf: "list_all wire_advisory xs"
    by (auto simp: wire_dependency_def split: option.splits)
  have rest: "list_all (\<lambda>kv. wire_dependency (snd kv)) deps"
    using Cons.prems by simp
  have "entries_loop num (kv # deps) r =
          entries_loop num deps (r\<lparr>error := error r @ map (finding k v) xs\<rparr>)"
    by (simp add: kv Get_array_field [OF xs] advisor_loop_wire [OF ver wf])
  also have "\<dots> = Inr (r\<lparr>error := error r @ map (finding k v) xs @ findings deps\<rparr>)"
    by (simp add: Cons.IH [OF rest])
  finally show ?case
    by (simp add: kv findings_def advisories_of_def xs)
qed

lemma length_findings:
  "length (findings deps) = sum_list (map (\<lambda>kv. length (advisories_of (snd kv))) deps)"
  by (induction deps) (simp_all add: findings_def)

lemma parseOutput_wire:
  assumes "JSON_parse (stdout output) = Inr (JObject deps)" and "wire_format (JObject deps)"
  shows "parseOutput JSON_parse num d output =
     Inr \<lparr>isSuccess = Some (status output = 0), error = findings deps,
          warning = [], notice = []\<rparr>"
  using assms
  by (simp add: parseOutput_def wire_format_def entries_loop_wire initLintResult_def)

subsection \<open>The sample payloads\<close>

lemmas payload_defs =
  guzzle_stdout_def three_stdout_def no_advisories_stdout_def number_advisory_stdout_def

lemma sample_three: "sample_JSON_parse three_stdout = Inr (JObject three_deps)"
  by (simp add: sample_JSON_parse_def payload_defs)

lemma sample_empty: "sample_JSON_parse ''{}'' = Inr (JObject [])"
  by (simp add: sample_JSON_parse_def)

lemma sample_guzzle: "sample_JSON_parse guzzle_stdout = Inr (JObject guzzle_deps)"
  by (simp add: sample_JSON_parse_def payload_defs)

lemma parseOutput_three:
  "parseOutput sample_JSON_parse show_nat d \<lparr>status = n, stdout = three_stdout, stderr = e\<rparr> =
     Inr \<lparr>isSuccess = Some (n = 0),
          error =
            [\<lparr>path = ''a/b version: 1.0 '', firstLine = Json (JString ''CVE-1''),
               lastLine = Json (JString ''CVE-1''), message = ''t1 (l1)''\<rparr>,
             \<lparr>path = ''a/b version: 1.0 '', firstLine = Json (JString ''CVE-2''),
               lastLine = Json (JString ''CVE-2''), message = ''t2 (l2)''\<rparr>,
             \<lparr>path = ''c/d version: 2.0 '', firstLine = Json (JString ''CVE-3''),
               lastLine = Json (JString ''CVE-3''), message = ''t3 (l3)''\<rparr>],
          warning = [], notice = []\<rparr>"
  by (simp add: parseOutput_def sample_three three_deps_def initLintResult_def make_entry_def)

lemma parseOutput_empty:
  "parseOutput sample_JSON_parse show_nat d \<lparr>status = n, stdout = ''{}'', stderr = e\<rparr> =
     Inr \<lparr>isSuccess = Some (n = 0), error = [], warning = [], notice = []\<rparr>"
  by (simp add: parseOutput_def sample_empty initLintResult_def)

lemma wire_three: "wire_format (JObject three_deps)"
  by (simp add: wire_format_def three_deps_def wire_dependency_def wire_advisory_def)

lemma findings_three:
  "findings three_deps =
     [\<lparr>path = ''a/b version: 1.0 '', firstLine = Json (JString ''CVE-1''),
        lastLine = Json (JString ''CVE-1''), message = ''t1 (l1)''\<rparr>,
      \<lparr>path = ''a/b version: 1.0 '', firstLine = Json (JString ''CVE-2''),
        lastLine = Json (JString ''CVE-2''), message = ''t2 (l2)''\<rparr>,
      \<lparr>path = ''c/d version: 2.0 '', firstLine = Json (JString ''CVE-3''),
        lastLine = Json (JString ''CVE-3''), message = ''t3 (l3)''\<rparr>]"
  by (simp add: three_deps_def findings_def advisories_of_def finding_def text_of_def)


lemma sample_not_json:
  "sample_JSON_parse ''not json'' = Inl ''Unexpected token o in JSON at position 1''"
  by (simp add: sample_JSON_parse_def payload_defs)

lemma sample_five: "sample_JSON_parse ''5'' = Inr (JNumber 5)"
  by (simp add: sample_JSON_parse_def)

lemma sample_null: "sample_JSON_parse ''null'' = Inr JNull"
  by (simp add: sample_JSON_parse_def)

lemma sample_no_advisories:
  "sample_JSON_parse no_advisories_stdout = Inr (JObject no_advisories_deps)"
  by (simp add: sample_JSON_parse_def payload_defs)

lemma sample_number_advisory:
  "sample_JSON_parse number_advisory_stdout = Inr (JObject number_advisory_deps)"
  by (simp add: sample_JSON_parse_def payload_defs)

subsection \<open>The success flag\<close>

text \<open>
  C1. Whenever \<open>parseOutput\<close> returns a result, its \<open>isSuccess\<close> is set, and it is true
  exactly when the exit status of the input is 0, whatever findings were extracted.
\<close>

theorem parseOutput_isSuccess:
  "parseOutput JSON_parse num d output = Inr r \<Longrightarrow> isSuccess r = Some (status output = 0)"
  by (auto simp: parseOutput_def initLintResult_def split: sum.splits dest: entries_loop_frame)

text \<open>
  Status 0 with three advisories gives \<open>isSuccess\<close> true; status 1 with no advisory gives
  \<open>isSuccess\<close> false.
\<close>

theorem parseOutput_isSuccess_witness:
  "(\<exists>r. parseOutput sample_JSON_parse show_nat ''/repo''
          \<lparr>status = 0, stdout = three_stdout, stderr = []\<rparr> = Inr r
        \<and> length (error r) = 3 \<and> isSuccess r = Some True)
   \<and> (\<exists>r. parseOutput sample_JSON_parse show_nat ''/repo''
          \<lparr>status = 1, stdout = ''{}'', stderr = []\<rparr> = Inr r
        \<and> length (error r) = 0 \<and> isSuccess r = Some False)"
proof -
  let ?o1 = "\<lparr>status = 0, stdout = three_stdout, stderr = []\<rparr>"
  let ?o2 = "\<lparr>status = 1, stdout = ''{}'', stderr = []\<rparr>"
  obtain r1 where r1: "parseOutput sample_JSON_parse show_nat ''/repo'' ?o1 = Inr r1"
    and n1: "length (error r1) = 3"
    by (simp add: parseOutput_three)
  obtain r2 where r2: "parseOutput sample_JSON_parse show_nat ''/repo'' ?o2 = Inr r2"
    and n2: "length (error r2) = 0"
    by (simp add: parseOutput_empty)
  from parseOutput_isSuccess [OF r1] have "isSuccess r1 = Some True" by simp
  moreover from parseOutput_isSuccess [OF r2] have "isSuccess r2 = Some False" by simp
  ultimately show ?thesis using r1 n1 r2 n2 by simp
qed

subsection \<open>The findings of a well-formed payload\<close>

text \<open>
  C3. When the output decodes to an object of the wire format, with dependencies \<open>deps\<close>,
  \<open>parseOutput\<close> returns, and the error bucket is the list of the findings of all
  advisories, dependency by dependency in the order of \<open>deps\<close> and, under one
  dependency, advisory by advisory in the order of its array: nothing is sorted and nothing
  is dropped. Its length is the sum of the numbers of advisories; the warning and notice
  buckets are empty.
\<close>

theorem parseOutput_findings_count_and_order:
  assumes "JSON_parse (stdout output) = Inr (JObject deps)"
    and "wire_format (JObject deps)"
  shows "\<exists>r. parseOutput JSON_parse num d output = Inr r
           \<and> error r = findings deps
           \<and> length (error r) = sum_list (map (\<lambda>kv. length (advisories_of (snd kv))) deps)
           \<and> warning r = [] \<and> notice r = []"
  using assms parseOutput_wire [of JSON_parse "output" deps num d]
  by (simp add: length_findings)

text \<open>Two dependencies with 2 and 1 advisories give 3 findings, in that order.\<close>

theorem parseOutput_findings_count_and_order_witness:
  "sample_JSON_parse three_stdout = Inr (JObject three_deps) \<and> wire_format (JObject three_deps) \<and>
   map (\<lambda>kv. length (advisories_of (snd kv))) three_deps = [2, 1] \<and>
   (\<exists>r. parseOutput sample_JSON_parse show_nat ''/repo''
           \<lparr>status = 1, stdout = three_stdout, stderr = []\<rparr> = Inr r
        \<and> map path (error r) = [''a/b version: 1.0 '', ''a/b version: 1.0 '', ''c/d version: 2.0 '']
        \<and> map firstLine (error r) =
            [Json (JString ''CVE-1''), Json (JString ''CVE-2''), Json (JString ''CVE-3'')]
        \<and> length (error r) = 3
        \<and> warning r = [] \<and> notice r = [])"
proof -
  let ?out = "\<lparr>status = 1, stdout = three_stdout, stderr = []\<rparr>"
  have dec: "sample_JSON_parse (stdout ?out) = Inr (JObject three_deps)"
    by (simp add: sample_three)
  have ks: "map (\<lambda>kv. length (advisories_of (snd kv))) three_deps = [2, 1]"
    by (simp add: three_deps_def advisories_of_def)
  from parseOutput_findings_count_and_order
         [of sample_JSON_parse ?out three_deps show_nat "''/repo''"] dec wire_three
  obtain r where "parseOutput sample_JSON_parse show_nat ''/repo'' ?out = Inr r"
    and "error r = findings three_deps" and "warning r = []" and "notice r = []"
    by blast
  then show ?thesis
    using dec wire_three ks by (simp add: findings_three)
qed



subsection \<open>Output that does not decode\<close>

lemma starts_with_append: "starts_with (xs @ post) xs"
  by (induction xs) simp_all

lemma str_includes_start: "starts_with ys xs \<Longrightarrow> str_includes ys xs"
  by (cases ys; cases xs) simp_all

lemma str_includes_append: "str_includes (pre @ xs @ post) xs"
proof (induction pre)
  case Nil
  show ?case by (simp add: str_includes_start starts_with_append)
next
  case (Cons p pre)
  then show ?case by simp
qed

text \<open>
  C5. When \<^verbatim>\<open>JSON.parse\<close> throws on the output, \<open>parseOutput\<close> fails with the error
  \<^verbatim>\<open>Error parsing security-checker JSON output: <message>. Output: "<stdout>"\<close>, whose
  message includes the message of the decode error and the whole of the output.
\<close>

theorem parseOutput_decode_failure:
  assumes "JSON_parse (stdout output) = Inl err_message"
  shows \<open>\<exists>m. parseOutput JSON_parse num d output = Inl (Error m)
           \<and> m = ''Error parsing security-checker JSON output: '' @ err_message
                   @ ''. Output: "'' @ stdout output @ ''"''
           \<and> str_includes m err_message \<and> str_includes m (stdout output)\<close>
proof -
  let ?m = \<open>''Error parsing security-checker JSON output: '' @ err_message
                   @ ''. Output: "'' @ stdout output @ ''"''\<close>
  have "parseOutput JSON_parse num d output = Inl (Error ?m)"
    using assms by (simp add: parseOutput_def name_def)
  moreover have "str_includes ?m err_message"
    using str_includes_append [of "''Error parsing security-checker JSON output: ''" err_message]
    by simp
  moreover have "str_includes ?m (stdout output)"
    using str_includes_append
      [of \<open>''Error parsing security-checker JSON output: '' @ err_message @ ''. Output: "''\<close>
          "stdout output"]
    by simp
  ultimately show ?thesis by blast
qed

text \<open>The output \<^verbatim>\<open>not json\<close>: the message of the error includes \<^verbatim>\<open>not json\<close>.\<close>

theorem parseOutput_decode_failure_witness:
  "sample_JSON_parse ''not json'' = Inl ''Unexpected token o in JSON at position 1'' \<and>
   (\<exists>m. parseOutput sample_JSON_parse show_nat ''/repo''
           \<lparr>status = 2, stdout = ''not json'', stderr = []\<rparr> = Inl (Error m)
        \<and> str_includes m ''Unexpected token o in JSON at position 1''
        \<and> str_includes m ''not json'')"
proof -
  let ?out = "\<lparr>status = 2, stdout = ''not json'', stderr = []\<rparr>"
  have dec: "sample_JSON_parse (stdout ?out) = Inl ''Unexpected token o in JSON at position 1''"
    by (simp add: sample_not_json)
  from parseOutput_decode_failure [of sample_JSON_parse ?out _ show_nat "''/repo''", OF dec]
  show ?thesis
    by (auto simp: sample_not_json)
qed

subsection \<open>Output that decodes, but not to the wire format\<close>

text \<open>Once the output is decoded, every error is one the runtime raises by itself.\<close>

lemma collect_Inl: "collect rs = Inl e \<Longrightarrow> Inl e \<in> set rs"
  by (induction rs) (auto split: sum.splits)

lemma json_ToString_error: "json_ToString num v = Inl e \<Longrightarrow> e = TypeError NoPrimitive"
proof (induction num v rule: json_ToString.induct)
  case (5 num xs)
  from "5.prems" have "collect (map (\<lambda>x. if x = JNull then Inr [] else json_ToString num x) xs) = Inl e"
    by (simp split: sum.splits)
  then have "Inl e \<in> set (map (\<lambda>x. if x = JNull then Inr [] else json_ToString num x) xs)"
    by (rule collect_Inl)
  then obtain x where "x \<in> set xs" and "x \<noteq> JNull" and "json_ToString num x = Inl e"
    by (auto split: if_splits)
  then show ?case using "5.IH" by blast
qed (auto split: if_splits)

lemma ToString_error: "ToString num v = Inl e \<Longrightarrow> e = TypeError NoPrimitive"
  by (cases v) (auto dest: json_ToString_error)

lemma Get_error: "Get v key = Inl e \<Longrightarrow> e = TypeError NullProperty"
  by (cases v) auto

lemma iterate_error: "iterate l = Inl e \<Longrightarrow> e = TypeError NotIterable"
  by (cases l rule: iterate.cases) auto

lemma make_entry_error:
  "make_entry num dependency v a = Inl e \<Longrightarrow> \<exists>t. e = TypeError t"
  by (auto simp: make_entry_def split: sum.splits dest: Get_error ToString_error)

lemma advisor_loop_error:
  "advisor_loop num dependency v advisors r = Inl e \<Longrightarrow> \<exists>t. e = TypeError t"
  by (induction advisors arbitrary: r) (auto split: sum.splits dest: make_entry_error)

lemma entries_loop_error:
  "entries_loop num es r = Inl e \<Longrightarrow> \<exists>t. e = TypeError t"
proof (induction es arbitrary: r)
  case Nil
  then show ?case by simp
next
  case (Cons kv es)
  obtain k v where kv: "kv = (k, v)" by (cases kv)
  from Cons.prems show ?case
    unfolding kv
    by (auto split: sum.splits dest: Get_error iterate_error advisor_loop_error Cons.IH)
qed

lemma lacks_advisories_stops:
  assumes "lacks_advisories v"
  shows "Get v ''advisories'' = Inl (TypeError NullProperty)
       \<or> (\<exists>l. Get v ''advisories'' = Inr l \<and> iterate l = Inl (TypeError NotIterable))"
  using assms by (cases v) (auto split: option.splits json.splits)

lemma entries_loop_lacks_advisories:
  "(k, v) \<in> set es \<Longrightarrow> lacks_advisories v \<Longrightarrow> \<exists>e. entries_loop num es r = Inl e"
proof (induction es arbitrary: r)
  case Nil
  then show ?case by simp
next
  case (Cons kv es)
  obtain k' v' where kv: "kv = (k', v')" by (cases kv)
  show ?case
  proof (cases "(k, v) = kv")
    case True
    with kv have "lacks_advisories v'" using Cons.prems(2) by simp
    from lacks_advisories_stops [OF this] show ?thesis
      unfolding kv by auto
  next
    case False
    with Cons.prems have "(k, v) \<in> set es" by simp
    from Cons.IH [OF this Cons.prems(2)] show ?thesis
      unfolding kv by (auto split: sum.splits)
  qed
qed

text \<open>
  C2, as the code has it. When the output decodes, \<open>parseOutput\<close> never fails with the
  parse error of C5. A decoded \<^verbatim>\<open>null\<close> makes it fail with a TypeError, and so does a
  decoded object one of whose values is not an object holding an array or a string under
  \<^verbatim>\<open>advisories\<close>. A decoded number, boolean, empty string or empty array is accepted
  and gives the empty result.
\<close>

theorem parseOutput_decoded_deviation:
  assumes "JSON_parse (stdout output) = Inr v"
  shows "(\<forall>m. parseOutput JSON_parse num d output \<noteq> Inl (Error m))
       \<and> (v = JNull \<longrightarrow> parseOutput JSON_parse num d output = Inl (TypeError NullToObject))
       \<and> (\<forall>deps. v = JObject deps \<and> (\<exists>kv \<in> set deps. lacks_advisories (snd kv)) \<longrightarrow>
            (\<exists>t. parseOutput JSON_parse num d output = Inl (TypeError t)))
       \<and> ((\<exists>b. v = JBool b) \<or> (\<exists>n. v = JNumber n) \<or> v = JString [] \<or> v = JArray [] \<longrightarrow>
            parseOutput JSON_parse num d output =
              Inr \<lparr>isSuccess = Some (status output = 0), error = [], warning = [], notice = []\<rparr>)"
proof (intro conjI allI impI)
  fix m
  show "parseOutput JSON_parse num d output \<noteq> Inl (Error m)"
    using assms
    by (cases v) (auto simp: parseOutput_def split: sum.splits dest: entries_loop_error)
next
  assume "v = JNull"
  then show "parseOutput JSON_parse num d output = Inl (TypeError NullToObject)"
    using assms by (simp add: parseOutput_def)
next
  fix deps
  assume a: "v = JObject deps \<and> (\<exists>kv \<in> set deps. lacks_advisories (snd kv))"
  then obtain k x where "(k, x) \<in> set deps" and "lacks_advisories x" by auto
  from entries_loop_lacks_advisories [OF this]
  obtain e where "entries_loop num deps (initLintResult\<lparr>isSuccess := Some (status output = 0)\<rparr>) = Inl e"
    by blast
  moreover from entries_loop_error [OF this] obtain t where "e = TypeError t" by blast
  ultimately show "\<exists>t. parseOutput JSON_parse num d output = Inl (TypeError t)"
    using assms a by (simp add: parseOutput_def)
next
  assume "(\<exists>b. v = JBool b) \<or> (\<exists>n. v = JNumber n) \<or> v = JString [] \<or> v = JArray []"
  then show "parseOutput JSON_parse num d output =
              Inr \<lparr>isSuccess = Some (status output = 0), error = [], warning = [], notice = []\<rparr>"
    using assms by (auto simp: parseOutput_def initLintResult_def)
qed

text \<open>The outputs \<^verbatim>\<open>null\<close>, \<^verbatim>\<open>{"a/b":{"version":"1.0"}}\<close> and \<^verbatim>\<open>5\<close>.\<close>

theorem parseOutput_decoded_deviation_witness:
  "parseOutput sample_JSON_parse show_nat ''/repo'' \<lparr>status = 0, stdout = ''null'', stderr = []\<rparr>
     = Inl (TypeError NullToObject)
   \<and> (\<exists>t. parseOutput sample_JSON_parse show_nat ''/repo''
             \<lparr>status = 0, stdout = no_advisories_stdout, stderr = []\<rparr> = Inl (TypeError t))
   \<and> parseOutput sample_JSON_parse show_nat ''/repo'' \<lparr>status = 0, stdout = ''5'', stderr = []\<rparr>
     = Inr \<lparr>isSuccess = Some True, error = [], warning = [], notice = []\<rparr>"
proof -
  let ?o1 = "\<lparr>status = 0, stdout = ''null'', stderr = []\<rparr>"
  let ?o2 = "\<lparr>status = 0, stdout = no_advisories_stdout, stderr = []\<rparr>"
  let ?o3 = "\<lparr>status = 0, stdout = ''5'', stderr = []\<rparr>"
  have d1: "sample_JSON_parse (stdout ?o1) = Inr JNull"
    and d2: "sample_JSON_parse (stdout ?o2) = Inr (JObject no_advisories_deps)"
    and d3: "sample_JSON_parse (stdout ?o3) = Inr (JNumber 5)"
    by (simp_all add: sample_null sample_no_advisories sample_five)
  have lacks: "\<exists>kv \<in> set no_advisories_deps. lacks_advisories (snd kv)"
    by (simp add: no_advisories_deps_def)
  from parseOutput_decoded_deviation [of sample_JSON_parse ?o1 JNull show_nat "''/repo''"] d1
  have "parseOutput sample_JSON_parse show_nat ''/repo'' ?o1 = Inl (TypeError NullToObject)"
    by simp
  moreover
  from parseOutput_decoded_deviation
    [of sample_JSON_parse ?o2 "JObject no_advisories_deps" show_nat "''/repo''"] d2 lacks
  have "\<exists>t. parseOutput sample_JSON_parse show_nat ''/repo'' ?o2 = Inl (TypeError t)"
    by blast
  moreover
  from parseOutput_decoded_deviation [of sample_JSON_parse ?o3 "JNumber 5" show_nat "''/repo''"] d3
  have "parseOutput sample_JSON_parse show_nat ''/repo'' ?o3
     = Inr \<lparr>isSuccess = Some True, error = [], warning = [], notice = []\<rparr>"
    by simp
  ultimately show ?thesis by blast
qed

text \<open>
  The claim as the spec states it fails: the output \<^verbatim>\<open>5\<close> is accepted with an empty
  result, the output \<^verbatim>\<open>{"a/b":{"advisories":[5]}}\<close> yields a finding made of
  \<^verbatim>\<open>undefined\<close>, and the output without the \<^verbatim>\<open>advisories\<close> key fails with a TypeError,
  which is not the parse error.
\<close>

theorem parseOutput_deviation_counterexample:
  "sample_JSON_parse ''5'' = Inr (JNumber 5)
   \<and> parseOutput sample_JSON_parse show_nat ''/repo'' \<lparr>status = 0, stdout = ''5'', stderr = []\<rparr>
     = Inr \<lparr>isSuccess = Some True, error = [], warning = [], notice = []\<rparr>
   \<and> sample_JSON_parse number_advisory_stdout = Inr (JObject number_advisory_deps)
   \<and> \<not> wire_format (JObject number_advisory_deps)
   \<and> parseOutput sample_JSON_parse show_nat ''/repo''
        \<lparr>status = 0, stdout = number_advisory_stdout, stderr = []\<rparr>
     = Inr \<lparr>isSuccess = Some True,
            error = [\<lparr>path = ''a/b version: undefined '', firstLine = Undefined,
                      lastLine = Undefined, message = ''undefined (undefined)''\<rparr>],
            warning = [], notice = []\<rparr>
   \<and> sample_JSON_parse no_advisories_stdout = Inr (JObject no_advisories_deps)
   \<and> parseOutput sample_JSON_parse show_nat ''/repo''
        \<lparr>status = 0, stdout = no_advisories_stdout, stderr = []\<rparr>
     = Inl (TypeError NotIterable)"
  by (simp add: parseOutput_def sample_five sample_number_advisory sample_no_advisories
      number_advisory_deps_def no_advisories_deps_def initLintResult_def make_entry_def
      wire_format_def wire_dependency_def)

subsection \<open>Determinism and the store\<close>

text \<open>What the steps on the store leave alone: the loops write to one array only, the
  error bucket of the result object.\<close>

lemma push_error_frame:
  "push_error r entry s = Inr s' \<Longrightarrow>
   outputs s' = outputs s \<and> results s' = results s \<and> length (arrays s') = length (arrays s)
   \<and> (\<forall>i. i \<noteq> error_ref (results s ! r) \<longrightarrow> arrays s' ! i = arrays s ! i)"
  by (auto simp: push_error_def Let_def split: if_splits)

lemma advisor_loop_st_frame:
  "advisor_loop_st num dependency v advisors r s = (x, s') \<Longrightarrow>
   outputs s' = outputs s \<and> results s' = results s \<and> length (arrays s') = length (arrays s)
   \<and> (\<forall>i. i \<noteq> error_ref (results s ! r) \<longrightarrow> arrays s' ! i = arrays s ! i)"
proof (induction advisors arbitrary: s)
  case Nil
  then show ?case by simp
next
  case (Cons a advisors)
  show ?case
  proof (cases "make_entry num dependency v a")
    case (Inl e)
    with Cons.prems show ?thesis by simp
  next
    case (Inr entry)
    show ?thesis
    proof (cases "push_error r entry s")
      case (Inl e)
      with Cons.prems \<open>make_entry num dependency v a = Inr entry\<close> show ?thesis by simp
    next
      case (Inr s1)
      with Cons.prems \<open>make_entry num dependency v a = Inr entry\<close>
      have "advisor_loop_st num dependency v advisors r s1 = (x, s')" by simp
      from Cons.IH [OF this] push_error_frame [OF Inr] show ?thesis by simp
    qed
  qed
qed

lemma entries_loop_st_frame:
  "entries_loop_st num es r s = (x, s') \<Longrightarrow>
   outputs s' = outputs s \<and> results s' = results s \<and> length (arrays s') = length (arrays s)
   \<and> (\<forall>i. i \<noteq> error_ref (results s ! r) \<longrightarrow> arrays s' ! i = arrays s ! i)"
proof (induction es arbitrary: s)
  case Nil
  then show ?case by simp
next
  case (Cons kv es)
  obtain k v where kv: "kv = (k, v)" by (cases kv)
  show ?case
  proof (cases "Get v ''advisories''")
    case (Inl e)
    with Cons.prems kv show ?thesis by simp
  next
    case (Inr l)
    note get = this
    show ?thesis
    proof (cases "iterate l")
      case (Inl e)
      with Cons.prems kv get show ?thesis by simp
    next
      case (Inr advisors)
      obtain y s1 where inner: "advisor_loop_st num k v advisors r s = (y, s1)"
        by (cases "advisor_loop_st num k v advisors r s")
      note f1 = advisor_loop_st_frame [OF inner]
      show ?thesis
      proof (cases y)
        case (Some e)
        with Cons.prems kv get Inr inner have "s' = s1" by simp
        with f1 show ?thesis by simp
      next
        case None
        with Cons.prems kv get Inr inner
        have "entries_loop_st num es r s1 = (x, s')" by simp
        from Cons.IH [OF this] f1 show ?thesis by simp
      qed
    qed
  qed
qed

lemma take_agree:
  assumes "length ys = length xs" and "n \<le> length xs"
    and "\<forall>i. i \<noteq> e \<longrightarrow> ys ! i = xs ! i" and "n \<le> e"
  shows "take n ys = take n xs"
  using assms by (intro nth_take_lemma) auto

lemma parseOutput_st_unchanged:
  "unchanged s (snd (parseOutput_st JSON_parse num d a s))"
proof -
  let ?n = "length (arrays s)" and ?r = "length (results s)"
  let ?ro = "\<lparr>isSuccess_field = None, error_ref = ?n, warning_ref = Suc ?n, notice_ref = Suc (Suc ?n)\<rparr>"
  let ?s1 = "s\<lparr>results := results s @ [?ro], arrays := arrays s @ [[], [], []]\<rparr>"
  have init: "initLintResult_st s = (?r, ?s1)"
    by (simp add: initLintResult_st_def Let_def)
  have u1: "unchanged s ?s1"
    by (simp add: unchanged_def)
  have u2: "unchanged s s2" if "set_isSuccess ?r b ?s1 = Inr s2" for b s2
    using that by (auto simp: set_isSuccess_def unchanged_def)
  have u3: "unchanged s s3"
    if s2: "set_isSuccess ?r b ?s1 = Inr s2" and loop: "entries_loop_st num es ?r s2 = (x, s3)"
    for b s2 es x s3
  proof -
    from s2 have r2: "results s2 = (results s @ [?ro])[?r := ?ro\<lparr>isSuccess_field := Some b\<rparr>]"
      and a2: "arrays s2 = arrays s @ [[], [], []]" and o2: "outputs s2 = outputs s"
      by (auto simp: set_isSuccess_def)
    from r2 have e: "error_ref (results s2 ! ?r) = ?n" by simp
    from entries_loop_st_frame [OF loop] e
    have f: "outputs s3 = outputs s2" "results s3 = results s2"
      "length (arrays s3) = length (arrays s2)"
      "\<forall>i. i \<noteq> ?n \<longrightarrow> arrays s3 ! i = arrays s2 ! i"
      by simp_all
    have "take ?n (arrays s3) = take ?n (arrays s2)"
      using f(3,4) a2 by (intro take_agree [where e = ?n]) auto
    then show ?thesis
      using f(1,2) r2 a2 o2 by (simp add: unchanged_def)
  qed
  show ?thesis
    unfolding parseOutput_st_def init
    by (auto split: sum.splits prod.splits option.splits intro: u1 u2 u3)
qed

text \<open>The function on the store computes what \<open>parseOutput\<close> computes.\<close>

lemma push_error_sim:
  assumes "result_ref s r"
  shows "\<exists>s'. push_error r entry s = Inr s' \<and> result_ref s' r
          \<and> result_at s' r = (result_at s r)\<lparr>error := error (result_at s r) @ [entry]\<rparr>"
  using assms by (simp add: push_error_def result_ref_def result_at_def Let_def)

lemma advisor_loop_st_sim:
  "result_ref s r \<Longrightarrow>
   (case advisor_loop num dependency v advisors (result_at s r) of
      Inl e \<Rightarrow> fst (advisor_loop_st num dependency v advisors r s) = Some e
    | Inr R \<Rightarrow> fst (advisor_loop_st num dependency v advisors r s) = None
              \<and> result_ref (snd (advisor_loop_st num dependency v advisors r s)) r
              \<and> result_at (snd (advisor_loop_st num dependency v advisors r s)) r = R)"
proof (induction advisors arbitrary: s)
  case Nil
  then show ?case by simp
next
  case (Cons a advisors)
  show ?case
  proof (cases "make_entry num dependency v a")
    case (Inl e)
    then show ?thesis by simp
  next
    case (Inr entry)
    from push_error_sim [OF Cons.prems, of entry] obtain s1 where
      p: "push_error r entry s = Inr s1" and ref: "result_ref s1 r"
      and at: "result_at s1 r = (result_at s r)\<lparr>error := error (result_at s r) @ [entry]\<rparr>"
      by blast
    have st: "advisor_loop_st num dependency v (a # advisors) r s =
        advisor_loop_st num dependency v advisors r s1"
      by (simp add: Inr p)
    have pure: "advisor_loop num dependency v (a # advisors) (result_at s r) =
        advisor_loop num dependency v advisors (result_at s1 r)"
      by (simp add: Inr at)
    show ?thesis
      unfolding st pure by (rule Cons.IH [OF ref])
  qed
qed

lemma entries_loop_st_sim:
  "result_ref s r \<Longrightarrow>
   (case entries_loop num es (result_at s r) of
      Inl e \<Rightarrow> fst (entries_loop_st num es r s) = Some e
    | Inr R \<Rightarrow> fst (entries_loop_st num es r s) = None
              \<and> result_ref (snd (entries_loop_st num es r s)) r
              \<and> result_at (snd (entries_loop_st num es r s)) r = R)"
proof (induction es arbitrary: s)
  case Nil
  then show ?case by simp
next
  case (Cons kv es)
  obtain k v where kv: "kv = (k, v)" by (cases kv)
  show ?case
  proof (cases "Get v ''advisories''")
    case (Inl e)
    then show ?thesis by (simp add: kv)
  next
    case (Inr l)
    note get = this
    show ?thesis
    proof (cases "iterate l")
      case (Inl e)
      then show ?thesis by (simp add: kv get)
    next
      case (Inr advisors)
      note it = this
      obtain y s1 where inner: "advisor_loop_st num k v advisors r s = (y, s1)"
        by (cases "advisor_loop_st num k v advisors r s")
      show ?thesis
      proof (cases "advisor_loop num k v advisors (result_at s r)")
        case (Inl e)
        with advisor_loop_st_sim [OF Cons.prems, of num k v advisors] inner
        have y: "y = Some e" by simp
        have "entries_loop num (kv # es) (result_at s r) = Inl e"
          by (simp add: kv get it Inl)
        moreover have "entries_loop_st num (kv # es) r s = (Some e, s1)"
          by (simp add: kv get it inner y)
        ultimately show ?thesis by simp
      next
        case (Inr R)
        with advisor_loop_st_sim [OF Cons.prems, of num k v advisors] inner
        have y: "y = None" and ref: "result_ref s1 r" and at: "result_at s1 r = R" by simp_all
        have pure: "entries_loop num (kv # es) (result_at s r) = entries_loop num es (result_at s1 r)"
          by (simp add: kv get it Inr at)
        have st: "entries_loop_st num (kv # es) r s = entries_loop_st num es r s1"
          by (simp add: kv get it inner y)
        show ?thesis
          unfolding st pure by (rule Cons.IH [OF ref])
      qed
    qed
  qed
qed

lemma parseOutput_st_refines:
  assumes "a < length (outputs s)"
  shows "outcome (parseOutput_st JSON_parse num d a s) = parseOutput JSON_parse num d (outputs s ! a)"
proof -
  let ?r = "length (results s)"
  let ?b = "status (outputs s ! a) = 0"
  let ?R = "initLintResult\<lparr>isSuccess := Some ?b\<rparr> :: 'a LintResult"
  have "\<exists>s1 s2. initLintResult_st s = (?r, s1)
          \<and> read_output s1 a status = Inr (status (outputs s ! a))
          \<and> set_isSuccess ?r ?b s1 = Inr s2
          \<and> read_output s2 a stdout = Inr (stdout (outputs s ! a))
          \<and> result_ref s2 ?r \<and> result_at s2 ?r = ?R"
    using assms
    by (simp add: initLintResult_st_def Let_def read_output_def set_isSuccess_def
        result_ref_def result_at_def initLintResult_def nth_append)
  then obtain s1 s2 where init: "initLintResult_st s = (?r, s1)"
    and rd1: "read_output s1 a status = Inr (status (outputs s ! a))"
    and set: "set_isSuccess ?r ?b s1 = Inr s2"
    and rd2: "read_output s2 a stdout = Inr (stdout (outputs s ! a))"
    and ref: "result_ref s2 ?r" and at: "result_at s2 ?r = ?R"
    by blast
  show ?thesis
  proof (cases "JSON_parse (stdout (outputs s ! a))")
    case (Inl m)
    then show ?thesis
      by (simp add: parseOutput_st_def init rd1 set rd2 outcome_def parseOutput_def)
  next
    case (Inr v)
    note dec = this
    show ?thesis
    proof (cases "Object_entries v")
      case (Inl e)
      then show ?thesis
        by (simp add: parseOutput_st_def init rd1 set rd2 outcome_def parseOutput_def dec)
    next
      case (Inr es)
      obtain y s3 where loop: "entries_loop_st num es ?r s2 = (y, s3)"
        by (cases "entries_loop_st num es ?r s2")
      have st: "parseOutput_st JSON_parse num d a s =
          (case y of Some e \<Rightarrow> (Inl e, s3) | None \<Rightarrow> (Inr ?r, s3))"
        by (simp add: parseOutput_st_def init rd1 set rd2 dec Inr loop split: option.splits)
      have pure: "parseOutput JSON_parse num d (outputs s ! a) = entries_loop num es ?R"
        by (simp add: parseOutput_def dec Inr)
      show ?thesis
      proof (cases "entries_loop num es ?R")
        case (Inl e)
        with entries_loop_st_sim [OF ref, of num es] at loop have "y = Some e" by simp
        then show ?thesis by (simp add: st pure Inl outcome_def)
      next
        case (Inr R)
        with entries_loop_st_sim [OF ref, of num es] at loop
        have "y = None" and "result_at s3 ?r = R" by simp_all
        then show ?thesis by (simp add: st pure Inr outcome_def)
      qed
    qed
  qed
qed

lemma parseOutput_agree:
  "status o1 = status o2 \<Longrightarrow> stdout o1 = stdout o2 \<Longrightarrow>
   parseOutput JSON_parse num d1 o1 = parseOutput JSON_parse num d2 o2"
  by (simp add: parseOutput_def split: sum.splits)

lemma parseOutput_guzzle:
  "parseOutput sample_JSON_parse show_nat d \<lparr>status = 1, stdout = guzzle_stdout, stderr = e\<rparr> =
     Inr \<lparr>isSuccess = Some False,
          error = [\<lparr>path = ''guzzlehttp/guzzle version: 6.2.0 '',
                    firstLine = Json (JString ''CVE-2016-5385''),
                    lastLine = Json (JString ''CVE-2016-5385''),
                    message = ''Proxy header vuln (https://x)''\<rparr>],
          warning = [], notice = []\<rparr>"
  by (simp add: parseOutput_def sample_guzzle guzzle_deps_def initLintResult_def make_entry_def)

text \<open>
  C9. Two calls of \<^verbatim>\<open>parseOutput\<close> whose output objects agree on the status and the
  standard output give the same result or the same error, whatever the directories, the
  standard errors and the rest of the two stores are; that result is the one \<open>parseOutput\<close>
  computes from the output object. A call changes no object that exists when it is made:
  the output objects, its own input among them, the earlier result objects and the earlier
  arrays are the same after the call, whether it returns or throws. Hence a later call on
  any output object gives what it would have given had the earlier call not been made.
\<close>

theorem parseOutput_st_deterministic_no_mutation:
  assumes "output1 < length (outputs s1)" and "output2 < length (outputs s2)"
    and "status (outputs s1 ! output1) = status (outputs s2 ! output2)"
    and "stdout (outputs s1 ! output1) = stdout (outputs s2 ! output2)"
  shows "outcome (parseOutput_st JSON_parse num d1 output1 s1) =
           outcome (parseOutput_st JSON_parse num d2 output2 s2)
       \<and> outcome (parseOutput_st JSON_parse num d1 output1 s1) =
           parseOutput JSON_parse num d1 (outputs s1 ! output1)
       \<and> unchanged s1 (snd (parseOutput_st JSON_parse num d1 output1 s1))
       \<and> outputs (snd (parseOutput_st JSON_parse num d1 output1 s1)) ! output1 = outputs s1 ! output1
       \<and> (\<forall>a d. a < length (outputs s1) \<longrightarrow>
            outcome (parseOutput_st JSON_parse num d a (snd (parseOutput_st JSON_parse num d1 output1 s1)))
              = outcome (parseOutput_st JSON_parse num d a s1))"
proof -
  let ?s' = "snd (parseOutput_st JSON_parse num d1 output1 s1)"
  have u: "unchanged s1 ?s'"
    by (rule parseOutput_st_unchanged)
  then have o: "outputs ?s' = outputs s1"
    by (simp add: unchanged_def)
  have "outcome (parseOutput_st JSON_parse num d1 output1 s1) =
           outcome (parseOutput_st JSON_parse num d2 output2 s2)"
    using assms parseOutput_agree [of "outputs s1 ! output1" "outputs s2 ! output2" JSON_parse num d1 d2]
    by (simp add: parseOutput_st_refines)
  moreover have "outcome (parseOutput_st JSON_parse num d a ?s') =
      outcome (parseOutput_st JSON_parse num d a s1)" if "a < length (outputs s1)" for a d
    using that o by (simp add: parseOutput_st_refines)
  ultimately show ?thesis
    using u o assms(1) by (simp add: parseOutput_st_refines)
qed

text \<open>Two output objects that differ in the standard error, in a store that holds an
  earlier result.\<close>

theorem parseOutput_st_deterministic_no_mutation_witness:
  "outcome (parseOutput_st sample_JSON_parse show_nat ''/a'' 0 sample_store) =
     outcome (parseOutput_st sample_JSON_parse show_nat ''/b'' 1 sample_store)
   \<and> outcome (parseOutput_st sample_JSON_parse show_nat ''/a'' 0 sample_store) =
     Inr \<lparr>isSuccess = Some False,
          error = [\<lparr>path = ''guzzlehttp/guzzle version: 6.2.0 '',
                    firstLine = Json (JString ''CVE-2016-5385''),
                    lastLine = Json (JString ''CVE-2016-5385''),
                    message = ''Proxy header vuln (https://x)''\<rparr>],
          warning = [], notice = []\<rparr>
   \<and> outputs (snd (parseOutput_st sample_JSON_parse show_nat ''/a'' 0 sample_store)) =
       outputs sample_store
   \<and> take 1 (results (snd (parseOutput_st sample_JSON_parse show_nat ''/a'' 0 sample_store))) =
       results sample_store
   \<and> take 3 (arrays (snd (parseOutput_st sample_JSON_parse show_nat ''/a'' 0 sample_store))) =
       arrays sample_store
   \<and> outcome (parseOutput_st sample_JSON_parse show_nat ''/b'' 1
        (snd (parseOutput_st sample_JSON_parse show_nat ''/a'' 0 sample_store))) =
     outcome (parseOutput_st sample_JSON_parse show_nat ''/b'' 1 sample_store)"
proof -
  have v0: "0 < length (outputs sample_store)" and v1: "1 < length (outputs sample_store)"
    and st: "status (outputs sample_store ! 0) = status (outputs sample_store ! 1)"
    and so: "stdout (outputs sample_store ! 0) = stdout (outputs sample_store ! 1)"
    and o0: "outputs sample_store ! 0 = \<lparr>status = 1, stdout = guzzle_stdout, stderr = []\<rparr>"
    and lens: "length (results sample_store) = 1" "length (arrays sample_store) = 3"
    by (simp_all add: sample_store_def)
  from parseOutput_st_deterministic_no_mutation [OF v0 v1 st so, of sample_JSON_parse show_nat "''/a''" "''/b''"]
  have a: "outcome (parseOutput_st sample_JSON_parse show_nat ''/a'' 0 sample_store) =
           outcome (parseOutput_st sample_JSON_parse show_nat ''/b'' 1 sample_store)"
    and b: "outcome (parseOutput_st sample_JSON_parse show_nat ''/a'' 0 sample_store) =
           parseOutput sample_JSON_parse show_nat ''/a'' (outputs sample_store ! 0)"
    and c: "unchanged sample_store (snd (parseOutput_st sample_JSON_parse show_nat ''/a'' 0 sample_store))"
    and d: "\<forall>a d. a < length (outputs sample_store) \<longrightarrow>
            outcome (parseOutput_st sample_JSON_parse show_nat d a
               (snd (parseOutput_st sample_JSON_parse show_nat ''/a'' 0 sample_store)))
              = outcome (parseOutput_st sample_JSON_parse show_nat d a sample_store)"
    by blast+
  from d v1 have e: "outcome (parseOutput_st sample_JSON_parse show_nat ''/b'' 1
        (snd (parseOutput_st sample_JSON_parse show_nat ''/a'' 0 sample_store))) =
     outcome (parseOutput_st sample_JSON_parse show_nat ''/b'' 1 sample_store)"
    by blast
  from b have b': "outcome (parseOutput_st sample_JSON_parse show_nat ''/a'' 0 sample_store) =
     Inr \<lparr>isSuccess = Some False,
          error = [\<lparr>path = ''guzzlehttp/guzzle version: 6.2.0 '',
                    firstLine = Json (JString ''CVE-2016-5385''),
                    lastLine = Json (JString ''CVE-2016-5385''),
                    message = ''Proxy header vuln (https://x)''\<rparr>],
          warning = [], notice = []\<rparr>"
    by (simp only: o0 parseOutput_guzzle)
  from c lens have "outputs (snd (parseOutput_st sample_JSON_parse show_nat ''/a'' 0 sample_store)) =
       outputs sample_store"
    and "take 1 (results (snd (parseOutput_st sample_JSON_parse show_nat ''/a'' 0 sample_store))) =
       results sample_store"
    and "take 3 (arrays (snd (parseOutput_st sample_JSON_parse show_nat ''/a'' 0 sample_store))) =
       arrays sample_store"
    by (simp_all add: unchanged_def)
  with a b' e show ?thesis by blast
qed

subsection \<open>Setup\<close>

text \<open>
  C6. Without PHP, \<open>verifySetup\<close> fails with \<^verbatim>\<open>PHP is not installed\<close> and the probe is
  the only call made: \<^verbatim>\<open>run\<close> is not called. With PHP, the version command is run once;
  when \<^verbatim>\<open>run\<close> throws, \<open>verifySetup\<close> fails with \<^verbatim>\<open>security-checker is not installed\<close>,
  and when it returns, \<open>verifySetup\<close> succeeds with no value.
\<close>

theorem verifySetup_outcomes:
  "(\<not> commandExists ''php'' \<longrightarrow>
      verifySetup commandExists run d prefix =
        (Inl (Error ''PHP is not installed''), [CommandExists ''php'']))
   \<and> (commandExists ''php'' \<longrightarrow>
        snd (verifySetup commandExists run d prefix) =
          [CommandExists ''php'',
           Run (dflt [] prefix @ '' security-checker --version'') \<lparr>dir = d, ignoreErrors = None\<rparr>]
        \<and> ((\<exists>e. run (dflt [] prefix @ '' security-checker --version'')
                   \<lparr>dir = d, ignoreErrors = None\<rparr> = Inl e) \<longrightarrow>
            fst (verifySetup commandExists run d prefix) = Inl (Error (name @ '' is not installed'')))
        \<and> ((\<exists>out. run (dflt [] prefix @ '' security-checker --version'')
                   \<lparr>dir = d, ignoreErrors = None\<rparr> = Inr out) \<longrightarrow>
            fst (verifySetup commandExists run d prefix) = Inr ()))"
  by (auto simp: verifySetup_def Let_def split: sum.splits)

theorem verifySetup_outcomes_witness:
  "verifySetup php_absent (run_spec exec_passing) ''/repo'' None =
     (Inl (Error ''PHP is not installed''), [CommandExists ''php''])
   \<and> verifySetup php_present (run_spec exec_failing) ''/repo'' None =
     (Inl (Error ''security-checker is not installed''),
      [CommandExists ''php'',
       Run '' security-checker --version'' \<lparr>dir = ''/repo'', ignoreErrors = None\<rparr>])
   \<and> verifySetup php_present (run_spec exec_passing) ''/repo'' (Some ''npx'') =
     (Inr (),
      [CommandExists ''php'',
       Run ''npx security-checker --version'' \<lparr>dir = ''/repo'', ignoreErrors = None\<rparr>])"
proof -
  have a: "\<not> php_absent ''php''" and p: "php_present ''php''"
    by (simp_all add: php_absent_def php_present_def)
  have f: "run_spec exec_failing '' security-checker --version''
             \<lparr>dir = ''/repo'', ignoreErrors = None\<rparr> = Inl ExecError"
    and s: "run_spec exec_passing ''npx security-checker --version''
             \<lparr>dir = ''/repo'', ignoreErrors = None\<rparr>
           = Inr \<lparr>status = 0, stdout = ''{}'', stderr = []\<rparr>"
    by (simp_all add: run_spec_def exec_failing_def exec_passing_def)
  show ?thesis
    using a p f s
      verifySetup_outcomes [of php_absent "run_spec exec_passing" "''/repo''" None]
      verifySetup_outcomes [of php_present "run_spec exec_failing" "''/repo''" None]
      verifySetup_outcomes [of php_present "run_spec exec_passing" "''/repo''" "Some ''npx''"]
    by (simp add: dflt_def name_def prod_eq_iff)
qed

subsection \<open>Linting\<close>

text \<open>
  C7. With \<^verbatim>\<open>fix\<close> true, \<open>lint\<close> emits one warning, which names the adapter and the
  joined extensions, and then does what it does with \<^verbatim>\<open>fix\<close> false: the same command
  with the same options, and the same result. With \<^verbatim>\<open>fix\<close> false there is no warning.
\<close>

theorem lint_fix_unsupported:
  "snd (lint run d extensions args (Some True) prefix) =
     Warning (name @ '' does not support auto-fixing '' @ join '','' extensions)
       # snd (lint run d extensions args (Some False) prefix)
   \<and> warnings (snd (lint run d extensions args (Some True) prefix)) =
       [name @ '' does not support auto-fixing '' @ join '','' extensions]
   \<and> warnings (snd (lint run d extensions args (Some False) prefix)) = []
   \<and> commands (snd (lint run d extensions args (Some True) prefix)) =
       commands (snd (lint run d extensions args (Some False) prefix))
   \<and> length (commands (snd (lint run d extensions args (Some True) prefix))) = 1
   \<and> fst (lint run d extensions args (Some True) prefix) =
       fst (lint run d extensions args (Some False) prefix)"
  by (simp add: lint_def dflt_def Let_def)

theorem lint_fix_unsupported_witness:
  "warnings (snd (lint (run_spec exec_failing) ''/repo'' [''php'', ''lock''] None (Some True) None))
     = [''security-checker does not support auto-fixing php,lock'']
   \<and> commands (snd (lint (run_spec exec_failing) ''/repo'' [''php'', ''lock''] None (Some True) None))
     = [('' security-checker security:check composer.lock  --no-dev --format=json'',
         \<lparr>dir = ''/repo'', ignoreErrors = Some True\<rparr>)]
   \<and> commands (snd (lint (run_spec exec_failing) ''/repo'' [''php'', ''lock''] None (Some False) None))
     = [('' security-checker security:check composer.lock  --no-dev --format=json'',
         \<lparr>dir = ''/repo'', ignoreErrors = Some True\<rparr>)]"
proof -
  have "commands (snd (lint (run_spec exec_failing) ''/repo'' [''php'', ''lock''] None (Some False) None))
     = [('' security-checker security:check composer.lock  --no-dev --format=json'',
         \<lparr>dir = ''/repo'', ignoreErrors = Some True\<rparr>)]"
    by (simp add: lint_def dflt_def Let_def)
  then show ?thesis
    using lint_fix_unsupported [of "run_spec exec_failing" "''/repo''" "[''php'', ''lock'']" None None]
    by (simp add: name_def)
qed

text \<open>
  C8. \<open>lint\<close> returns what \<^verbatim>\<open>run\<close> returns for the command, and calls it with
  \<^verbatim>\<open>ignoreErrors: true\<close>. With the collaborator as the spec describes it, \<open>lint\<close> hence
  returns the output of the subprocess whatever its exit status is.
\<close>

theorem lint_returns_run_output:
  "fst (lint run d extensions args fix prefix) =
     run (dflt [] prefix @ '' security-checker security:check composer.lock '' @ dflt [] args
            @ '' --no-dev --format=json'')
         \<lparr>dir = d, ignoreErrors = Some True\<rparr>
   \<and> map snd (commands (snd (lint run d extensions args fix prefix))) =
       [\<lparr>dir = d, ignoreErrors = Some True\<rparr>]
   \<and> fst (lint (run_spec exec) d extensions args fix prefix) =
       Inr (exec (dflt [] prefix @ '' security-checker security:check composer.lock ''
                    @ dflt [] args @ '' --no-dev --format=json'') d)"
  by (simp add: lint_def run_spec_def Let_def)

text \<open>A subprocess that exits with status 1: \<open>lint\<close> returns its output, where the same
  command run without \<^verbatim>\<open>ignoreErrors\<close> throws.\<close>

theorem lint_returns_run_output_witness:
  "fst (lint (run_spec exec_failing) ''/repo'' [''php''] (Some ''--x'') None (Some ''npx'')) =
     Inr \<lparr>status = 1, stdout = ''{}'', stderr = ''sh: not found''\<rparr>
   \<and> run_spec exec_failing
        ''npx security-checker security:check composer.lock --x --no-dev --format=json''
        \<lparr>dir = ''/repo'', ignoreErrors = None\<rparr> = Inl ExecError"
  using lint_returns_run_output
    [of "run_spec exec_failing" "''/repo''" "[''php'']" "Some ''--x''" None "Some ''npx''" exec_failing]
  by (simp add: run_spec_def exec_failing_def dflt_def)

text \<open>
  C10. The one command \<open>lint\<close> runs is the prefix, then
  \<^verbatim>\<open> security-checker security:check composer.lock \<close>, then the extra arguments, then
  \<^verbatim>\<open> --no-dev --format=json\<close>. Neither the extensions nor \<^verbatim>\<open>fix\<close> change the command or
  the result, and without \<^verbatim>\<open>fix\<close> the extensions change nothing at all.
\<close>

theorem lint_command_template:
  "commands (snd (lint run d extensions args fix prefix)) =
     [(dflt [] prefix @ '' security-checker security:check composer.lock '' @ dflt [] args
         @ '' --no-dev --format=json'',
       \<lparr>dir = d, ignoreErrors = Some True\<rparr>)]
   \<and> commands (snd (lint run d extensions args fix prefix)) =
       commands (snd (lint run d extensions' args fix' prefix))
   \<and> fst (lint run d extensions args fix prefix) = fst (lint run d extensions' args fix' prefix)
   \<and> snd (lint run d extensions args (Some False) prefix) =
       snd (lint run d extensions' args (Some False) prefix)
   \<and> snd (lint run d extensions args None prefix) =
       snd (lint run d extensions' args (Some False) prefix)"
  by (simp add: lint_def dflt_def Let_def)

theorem lint_command_template_witness:
  "commands (snd (lint (run_spec exec_passing) ''/repo'' [''php'', ''lock''] (Some ''--quiet'')
       (Some True) (Some ''docker run app''))) =
     [(''docker run app security-checker security:check composer.lock --quiet --no-dev --format=json'',
       \<lparr>dir = ''/repo'', ignoreErrors = Some True\<rparr>)]"
  using lint_command_template
    [of "run_spec exec_passing" "''/repo''" "[''php'', ''lock'']" "Some ''--quiet''" "Some True"
        "Some ''docker run app''"]
  by (simp add: dflt_def)

end
